theory Spec2Isabelle
  imports Main "HOL-Library.Multiset"
begin

section \<open>Python strings\<close>

text \<open>
  The analyzer of \<^verbatim>\<open>runner_usage_analyzer.py\<close> works on Python \<^verbatim>\<open>str\<close> values. They are
  modelled as \<^typ>\<open>string\<close>; the case conversions are the ASCII ones, which is what Python
  computes on the ASCII labels, field names and filters the GitHub API and the environment
  provide.
\<close>

definition is_lower :: "char \<Rightarrow> bool" where
  "is_lower c = ((97::nat) \<le> of_char c \<and> of_char c \<le> (122::nat))"

definition is_upper :: "char \<Rightarrow> bool" where
  "is_upper c = ((65::nat) \<le> of_char c \<and> of_char c \<le> (90::nat))"

definition lower_char :: "char \<Rightarrow> char" where
  "lower_char c = (if is_upper c then char_of (of_char c + (32::nat)) else c)"

definition upper_char :: "char \<Rightarrow> char" where
  "upper_char c = (if is_lower c then char_of (of_char c - (32::nat)) else c)"

text \<open>\<^verbatim>\<open>s.lower()\<close>\<close>

definition lower :: "string \<Rightarrow> string" where
  "lower s = map lower_char s"

text \<open>
  \<^verbatim>\<open>s.title()\<close>: a cased character that follows an uncased one (or starts the string) is
  upper-cased, every other cased character is lower-cased.
\<close>

fun title_from :: "bool \<Rightarrow> string \<Rightarrow> string" where
  "title_from previous_is_cased [] = []"
| "title_from previous_is_cased (c # cs) =
     (if is_lower c then
        (if previous_is_cased then c else upper_char c) # title_from True cs
      else if is_upper c then
        (if previous_is_cased then lower_char c else c) # title_from True cs
      else c # title_from False cs)"

definition title :: "string \<Rightarrow> string" where
  "title s = title_from False s"

text \<open>\<^verbatim>\<open>sep.join(xs)\<close>\<close>

fun join :: "string \<Rightarrow> string list \<Rightarrow> string" where
  "join sep [] = []"
| "join sep [x] = x"
| "join sep (x # y # ys) = x @ sep @ join sep (y # ys)"

text \<open>\<^verbatim>\<open>s.startswith(w)\<close> and the substring test \<^verbatim>\<open>w in s\<close>\<close>

fun startswith :: "string \<Rightarrow> string \<Rightarrow> bool" where
  "startswith s [] = True"
| "startswith [] (c # w) = False"
| "startswith (d # s) (c # w) = (d = c \<and> startswith s w)"

fun str_in :: "string \<Rightarrow> string \<Rightarrow> bool" where
  "str_in w [] = (w = [])"
| "str_in w (c # s) = (startswith (c # s) w \<or> str_in w s)"

text \<open>
  What ``\<open>s\<close> contains \<open>w\<close>'' means: \<open>w\<close> occurs in \<open>s\<close> as a contiguous block. The test
  \<^const>\<open>str_in\<close> decides it.
\<close>

definition occurs_in :: "string \<Rightarrow> string \<Rightarrow> bool" where
  "occurs_in w s = (\<exists>p q. s = p @ w @ q)"

text \<open>
  The notions of the specification of the classifier, stated on their own, without the
  operations above. Two characters are the same letter when they are equal or are the
  upper-case and the lower-case form of one letter, 32 apart in ASCII. A string contains
  a word case-insensitively when a block of it agrees with the word letter by letter. The
  whitespace-joined concatenation of the labels puts one space before each label and drops
  the first space.
\<close>

definition same_letter :: "char \<Rightarrow> char \<Rightarrow> bool" where
  "same_letter a b =
     (a = b
      \<or> ((65::nat) \<le> of_char a \<and> of_char a \<le> (90::nat) \<and> of_char b = of_char a + (32::nat))
      \<or> ((65::nat) \<le> of_char b \<and> of_char b \<le> (90::nat) \<and> of_char a = of_char b + (32::nat)))"

definition contains_ci :: "string \<Rightarrow> string \<Rightarrow> bool" where
  "contains_ci s w = (\<exists>p m q. s = p @ m @ q \<and> list_all2 same_letter m w)"

definition whitespace_joined :: "string list \<Rightarrow> string" where
  "whitespace_joined labels = tl (concat (map (\<lambda>l. CHR '' '' # l) labels))"

section \<open>Record classifier\<close>

text \<open>
  \<^verbatim>\<open>_categorize_runner\<close>: the labels are joined with one space and lower-cased; the first test
  of the \<^verbatim>\<open>if\<close>/\<^verbatim>\<open>elif\<close> chain that succeeds decides the category.
\<close>

definition categorize_runner :: "string list \<Rightarrow> string" where
  "categorize_runner labels =
     (let labels_str = lower (join '' '' labels) in
      if str_in ''self-hosted'' labels_str then ''Self-hosted''
      else if list_ex (\<lambda>gh_label. str_in gh_label labels_str)
                [''ubuntu-latest'', ''windows-latest'', ''macos-latest''] then ''GitHub-hosted''
      else if str_in ''ubuntu'' labels_str then ''Ubuntu''
      else if str_in ''windows'' labels_str then ''Windows''
      else if str_in ''macos'' labels_str then ''macOS''
      else if str_in ''linux'' labels_str then ''Linux''
      else ''Unknown'')"

text \<open>\<^verbatim>\<open>_get_cost_category\<close>\<close>

definition get_cost_category :: "string list \<Rightarrow> string" where
  "get_cost_category labels =
     (let labels_str = lower (join '' '' labels) in
      if str_in ''self-hosted'' labels_str then ''Self-hosted (Custom Cost)''
      else if list_ex (\<lambda>size. str_in size labels_str)
                [''large'', ''xl'', ''xxl'', ''4-core'', ''8-core'', ''16-core''] then ''Large Instance''
      else if list_ex (\<lambda>gh_label. str_in gh_label labels_str)
                [''ubuntu-latest'', ''windows-latest'', ''macos-latest''] then ''Standard GitHub-hosted''
      else ''Standard'')"

section \<open>Values and errors\<close>

text \<open>
  The exceptions the analyzer can meet. \<open>GitHubAPIError\<close> is the one \<^verbatim>\<open>make_api_request\<close>
  raises; the others are Python's own.
\<close>

datatype error = GitHubAPIError | ValueError | TypeError | AttributeError | OverflowError

text \<open>
  A JSON scalar as Python sees it: a \<^verbatim>\<open>str\<close>, an \<^verbatim>\<open>int\<close> or \<^verbatim>\<open>None\<close> (JSON \<^verbatim>\<open>null\<close>).
\<close>

datatype pyval = Str string | Num int | PyNone

text \<open>The truth value Python gives a scalar in \<^verbatim>\<open>if x\<close>.\<close>

fun truthy :: "pyval \<Rightarrow> bool" where
  "truthy (Str s) = (s \<noteq> [])"
| "truthy (Num n) = (n \<noteq> 0)"
| "truthy PyNone = False"

text \<open>\<^verbatim>\<open>d.get(key, default)\<close> on a key that is absent (\<open>None\<close>) or present.\<close>

definition get_or :: "'a option \<Rightarrow> 'a \<Rightarrow> 'a" where
  "get_or v d = (case v of None \<Rightarrow> d | Some x \<Rightarrow> x)"

section \<open>Duration calculator\<close>

text \<open>
  A \<^verbatim>\<open>datetime\<close> value; \<open>utcoffset\<close> is the offset of its time zone in seconds, \<open>None\<close> for a
  naive value.
\<close>

record datetime =
  year :: nat
  month :: nat
  day :: nat
  hour :: nat
  minute :: nat
  second :: nat
  microsecond :: nat
  utcoffset :: "int option"

definition is_leap :: "nat \<Rightarrow> bool" where
  "is_leap y = (y mod 4 = 0 \<and> (y mod 400 = 0 \<or> y mod 100 \<noteq> 0))"

definition days_in_month :: "nat \<Rightarrow> nat \<Rightarrow> nat" where
  "days_in_month y m =
     (if m = 2 then (if is_leap y then 29 else 28)
      else if m = 4 \<or> m = 6 \<or> m = 9 \<or> m = 11 then 30 else 31)"

definition days_before_year :: "nat \<Rightarrow> nat" where
  "days_before_year y = (y - 1) * 365 + (y - 1) div 4 - (y - 1) div 100 + (y - 1) div 400"

definition days_before_month :: "nat \<Rightarrow> nat \<Rightarrow> nat" where
  "days_before_month y m = sum_list (map (days_in_month y) [1..<m])"

definition toordinal :: "datetime \<Rightarrow> int" where
  "toordinal t = int (days_before_year (year t) + days_before_month (year t) (month t) + day t)"

text \<open>
  \<^verbatim>\<open>end_time - start_time\<close>: the difference in microseconds. Python refuses to subtract a naive
  value from an aware one, or the reverse, with a \<^verbatim>\<open>TypeError\<close>.
\<close>

definition datetime_sub :: "datetime \<Rightarrow> datetime \<Rightarrow> error + int" where
  "datetime_sub a b =
     (let secs = (\<lambda>t. int (second t) + int (minute t) * 60 + int (hour t) * 3600);
          base = ((toordinal a - toordinal b) * 86400 + (secs a - secs b)) * 1000000
                   + (int (microsecond a) - int (microsecond b))
      in case (utcoffset a, utcoffset b) of
           (None, None) \<Rightarrow> Inr base
         | (Some myoff, Some otoff) \<Rightarrow> Inr (base + (otoff - myoff) * 1000000)
         | _ \<Rightarrow> Inl TypeError)"

text \<open>\<^verbatim>\<open>int(duration.total_seconds())\<close>: the whole seconds, rounded towards zero.\<close>

definition total_seconds_int :: "int \<Rightarrow> int" where
  "total_seconds_int us = (if 0 \<le> us then us div 1000000 else - ((- us) div 1000000))"

text \<open>\<^verbatim>\<open>s.replace('Z', '+00:00')\<close>\<close>

definition replace_Z :: "string \<Rightarrow> string" where
  "replace_Z s = concat (map (\<lambda>c. if c = CHR ''Z'' then ''+00:00'' else [c]) s)"

text \<open>
  A job as the jobs endpoint of the API returns it. A field read with \<^verbatim>\<open>job.get\<close> is an
  option, \<open>None\<close> when the key is absent.
\<close>

record job =
  job_labels :: "string list option"
  job_status :: "string option"
  job_name :: pyval
  job_started_at :: "pyval option"
  job_completed_at :: "pyval option"
  job_id :: "pyval option"
  job_conclusion :: "pyval option"
  job_html_url :: "pyval option"

text \<open>
  \<^verbatim>\<open>_calculate_duration\<close>. The parser \<^verbatim>\<open>datetime.fromisoformat\<close> belongs to Python's library and
  is a parameter here. The method first parses both timestamps and subtracts them; a
  \<^verbatim>\<open>ValueError\<close> or a \<^verbatim>\<open>TypeError\<close> on the way is caught and gives \<^verbatim>\<open>"unknown"\<close>. A timestamp
  that is a number has no \<^verbatim>\<open>replace\<close> method, which is an \<^verbatim>\<open>AttributeError\<close>. Then the
  method calls \<^verbatim>\<open>self._parse_iso_datetime\<close>, which the class does not define: the lookup
  raises \<^verbatim>\<open>AttributeError\<close>, the handler does not catch it, and the lines after it, which
  would format the result, are never reached.
\<close>

definition caught :: "error \<Rightarrow> error + string" where
  "caught e = (if e = ValueError \<or> e = TypeError then Inr ''unknown'' else Inl e)"

definition str_replace_Z :: "pyval \<Rightarrow> error + string" where
  "str_replace_Z v = (case v of Str s \<Rightarrow> Inr (replace_Z s) | _ \<Rightarrow> Inl AttributeError)"

definition calculate_duration :: "(string \<Rightarrow> error + datetime) \<Rightarrow> job \<Rightarrow> error + string" where
  "calculate_duration fromisoformat j =
     (let started_at = get_or (job_started_at j) PyNone;
          completed_at = get_or (job_completed_at j) PyNone
      in if truthy started_at \<and> truthy completed_at then
           (case str_replace_Z started_at of Inl e \<Rightarrow> caught e | Inr s \<Rightarrow>
            case fromisoformat s of Inl e \<Rightarrow> caught e | Inr start_time \<Rightarrow>
            case str_replace_Z completed_at of Inl e \<Rightarrow> caught e | Inr c \<Rightarrow>
            case fromisoformat c of Inl e \<Rightarrow> caught e | Inr end_time \<Rightarrow>
            case datetime_sub end_time start_time of Inl e \<Rightarrow> caught e | Inr duration \<Rightarrow>
              (let total_seconds = total_seconds_int duration;
                   minutes = total_seconds div 60;
                   seconds = total_seconds mod 60
               in \<comment> \<open>\<^verbatim>\<open>self._parse_iso_datetime(started_at)\<close>: no such attribute\<close>
                  caught AttributeError))
         else Inr ''unknown'')"

text \<open>
  An instance of the library parser, for the timestamps the API produces:
  \<^verbatim>\<open>YYYY-MM-DD\<close>, one separator character, \<^verbatim>\<open>HH:MM:SS\<close>, and an optional offset \<^verbatim>\<open>+HH:MM\<close> or
  \<^verbatim>\<open>-HH:MM\<close> of at most 23 hours and 59 minutes. On the strings of this form that name a date
  and a time of day it computes what \<^verbatim>\<open>datetime.fromisoformat\<close> does. Every other string it
  rejects with \<^verbatim>\<open>ValueError\<close>; the library accepts some of them (a date alone, fractions of
  a second). It serves to run the calculator on concrete jobs; the general statements
  below hold for every parser.
\<close>

definition digit_val :: "char \<Rightarrow> nat option" where
  "digit_val c =
    (if (48::nat) \<le> of_char c \<and> of_char c \<le> (57::nat) then Some (of_char c - 48) else None)"

fun digits_from :: "nat \<Rightarrow> string \<Rightarrow> nat option" where
  "digits_from acc [] = Some acc"
| "digits_from acc (c # cs) =
     (case digit_val c of None \<Rightarrow> None | Some d \<Rightarrow> digits_from (10 * acc + d) cs)"

definition number :: "string \<Rightarrow> nat option" where
  "number s = (if s = [] then None else digits_from 0 s)"

definition parse_offset :: "string \<Rightarrow> error + int option" where
  "parse_offset tz =
     (if tz = [] then Inr None
      else if length tz = 6 \<and> (tz ! 0 = CHR ''+'' \<or> tz ! 0 = CHR ''-'') \<and> tz ! 3 = CHR '':'' then
        (case (number (take 2 (drop 1 tz)), number (drop 4 tz)) of
           (Some h, Some m) \<Rightarrow>
             if h \<le> 23 \<and> m \<le> 59
             then Inr (Some ((if tz ! 0 = CHR ''-'' then - 1 else 1) * (int h * 3600 + int m * 60)))
             else Inl ValueError
         | _ \<Rightarrow> Inl ValueError)
      else Inl ValueError)"

definition parse_fields :: "string \<Rightarrow> (nat \<times> nat \<times> nat \<times> nat \<times> nat \<times> nat) option" where
  "parse_fields s =
     (case number (take 4 s) of None \<Rightarrow> None | Some y \<Rightarrow>
      case number (take 2 (drop 5 s)) of None \<Rightarrow> None | Some m \<Rightarrow>
      case number (take 2 (drop 8 s)) of None \<Rightarrow> None | Some d \<Rightarrow>
      case number (take 2 (drop 11 s)) of None \<Rightarrow> None | Some hh \<Rightarrow>
      case number (take 2 (drop 14 s)) of None \<Rightarrow> None | Some mm \<Rightarrow>
      case number (take 2 (drop 17 s)) of None \<Rightarrow> None | Some ss \<Rightarrow>
        Some (y, m, d, hh, mm, ss))"

definition fromisoformat :: "string \<Rightarrow> error + datetime" where
  "fromisoformat s =
     (if (length s = 19 \<or> length s = 25)
         \<and> s ! 4 = CHR ''-'' \<and> s ! 7 = CHR ''-'' \<and> s ! 13 = CHR '':'' \<and> s ! 16 = CHR '':'' then
        (case parse_fields (take 19 s) of
           None \<Rightarrow> Inl ValueError
         | Some (y, m, d, hh, mm, ss) \<Rightarrow>
             if 1 \<le> y \<and> 1 \<le> m \<and> m \<le> 12 \<and> 1 \<le> d \<and> d \<le> days_in_month y m
                \<and> hh \<le> 23 \<and> mm \<le> 59 \<and> ss \<le> 59 then
               (case parse_offset (drop 19 s) of
                  Inl e \<Rightarrow> Inl e
                | Inr off \<Rightarrow>
                    Inr \<lparr>year = y, month = m, day = d, hour = hh, minute = mm, second = ss,
                         microsecond = 0, utcoffset = off\<rparr>)
             else Inl ValueError)
      else Inl ValueError)"

section \<open>Job records and group summaries\<close>

text \<open>
  The dictionary \<^verbatim>\<open>analyze_runner_usage\<close> appends for a job, one field for each of its twenty
  keys.
\<close>

record job_record =
  Org :: string
  Repo :: string
  Branch :: string
  Workflow_File :: pyval
  Workflow_Name :: pyval
  Runner_Labels :: string
  Runner_Type :: string
  Cost_Category :: string
  Job_Name :: pyval
  Job_Status :: string
  Run_Date :: pyval
  Completed_Date :: pyval
  Duration :: string
  Run_ID :: int
  Job_ID :: pyval
  Conclusion :: pyval
  HTML_URL :: pyval
  Repository_Size :: pyval
  Repository_Language :: pyval
  Repository_Visibility :: pyval

text \<open>The keys of that dictionary with their values, and \<^verbatim>\<open>result.get(key)\<close>.\<close>

definition record_items :: "job_record \<Rightarrow> (string \<times> pyval) list" where
  "record_items r =
     [(''Org'', Str (Org r)),
      (''Repo'', Str (Repo r)),
      (''Branch'', Str (Branch r)),
      (''Workflow File'', Workflow_File r),
      (''Workflow Name'', Workflow_Name r),
      (''Runner Labels'', Str (Runner_Labels r)),
      (''Runner Type'', Str (Runner_Type r)),
      (''Cost Category'', Str (Cost_Category r)),
      (''Job Name'', Job_Name r),
      (''Job Status'', Str (Job_Status r)),
      (''Run Date'', Run_Date r),
      (''Completed Date'', Completed_Date r),
      (''Duration'', Str (Duration r)),
      (''Run ID'', Num (Run_ID r)),
      (''Job ID'', Job_ID r),
      (''Conclusion'', Conclusion r),
      (''HTML URL'', HTML_URL r),
      (''Repository Size'', Repository_Size r),
      (''Repository Language'', Repository_Language r),
      (''Repository Visibility'', Repository_Visibility r)]"

definition record_get :: "job_record \<Rightarrow> string \<Rightarrow> pyval option" where
  "record_get r k = map_of (record_items r) k"

text \<open>
  A summary row of \<^verbatim>\<open>_group_results\<close>. Its two remaining entries, \<^verbatim>\<open>Success Rate\<close> and
  \<^verbatim>\<open>Average Duration\<close>, are strings formatted from floating-point numbers; they take no part
  in the grouping or in the counts and are left out.
\<close>

record group_summary =
  Group :: pyval
  Group_Type :: string
  Total_Jobs :: int
  Successful_Jobs :: int
  Failed_Jobs :: int
  Sample_Repository :: string

text \<open>The result list holds job records in flat mode and summaries in grouped mode.\<close>

datatype row = JobRow job_record | SummaryRow group_summary

section \<open>Aggregator\<close>

text \<open>
  The key of one record in the loop of \<^verbatim>\<open>_group_results\<close>: first the field named by
  \<^verbatim>\<open>group_by.title()\<close>, \<^verbatim>\<open>'Unknown'\<close> when the record has no such field, then the six aliases.
\<close>

definition group_key :: "string \<Rightarrow> job_record \<Rightarrow> pyval" where
  "group_key group_by result =
     (let key = get_or (record_get result (title group_by)) (Str ''Unknown'') in
      if group_by = ''label'' then get_or (record_get result ''Runner Labels'') (Str ''Unknown'')
      else if group_by = ''status'' then get_or (record_get result ''Job Status'') (Str ''Unknown'')
      else if group_by = ''workflow'' then get_or (record_get result ''Workflow Name'') (Str ''Unknown'')
      else if group_by = ''branch'' then get_or (record_get result ''Branch'') (Str ''Unknown'')
      else if group_by = ''runner_type'' then get_or (record_get result ''Runner Type'') (Str ''Unknown'')
      else if group_by = ''cost_category'' then get_or (record_get result ''Cost Category'') (Str ''Unknown'')
      else key)"

text \<open>
  \<^verbatim>\<open>grouped[key].append(result)\<close> on the \<^verbatim>\<open>defaultdict(list)\<close>: a dictionary keeps its keys in
  the order of their first insertion, so it is an association list here.
\<close>

fun grouped_append :: "pyval \<Rightarrow> job_record \<Rightarrow> (pyval \<times> job_record list) list \<Rightarrow>
    (pyval \<times> job_record list) list" where
  "grouped_append key result [] = [(key, [result])]"
| "grouped_append key result ((k, group_items) # rest) =
     (if k = key then (k, group_items @ [result]) # rest
      else (k, group_items) # grouped_append key result rest)"

fun group_loop :: "string \<Rightarrow> job_record list \<Rightarrow> (pyval \<times> job_record list) list \<Rightarrow>
    (pyval \<times> job_record list) list" where
  "group_loop group_by [] grouped = grouped"
| "group_loop group_by (result # results) grouped =
     group_loop group_by results (grouped_append (group_key group_by result) result grouped)"

definition summary :: "string \<Rightarrow> pyval \<times> job_record list \<Rightarrow> group_summary" where
  "summary group_by g =
     (case g of (key, group_items) \<Rightarrow>
        \<lparr>Group = key,
         Group_Type = title group_by,
         Total_Jobs = int (length group_items),
         Successful_Jobs = int (length (filter (\<lambda>item. Job_Status item = ''completed'') group_items)),
         Failed_Jobs = int (length (filter (\<lambda>item. Job_Status item = ''failure'') group_items)),
         Sample_Repository = (case group_items of [] \<Rightarrow> ''Unknown'' | item # _ \<Rightarrow> Repo item)\<rparr>)"

definition group_results :: "job_record list \<Rightarrow> string \<Rightarrow> row list" where
  "group_results results group_by =
     (if results = [] then map JobRow results
      else map (\<lambda>g. SummaryRow (summary group_by g)) (group_loop group_by results []))"

text \<open>
  The last step of \<^verbatim>\<open>analyze_runner_usage\<close>:
  \<^verbatim>\<open>if group_by != "none": results = self._group_results(results, group_by)\<close>.
\<close>

definition group_if_requested :: "job_record list \<Rightarrow> string \<Rightarrow> row list" where
  "group_if_requested results group_by =
     (if group_by \<noteq> ''none'' then group_results results group_by else map JobRow results)"

section \<open>Usage collector\<close>

text \<open>
  A repository and a workflow run as the API returns them. The code indexes \<^verbatim>\<open>name\<close>,
  \<^verbatim>\<open>default_branch\<close> and \<^verbatim>\<open>id\<close> and reads the other keys with \<^verbatim>\<open>get\<close>.
\<close>

record repo =
  repo_name :: string
  repo_default_branch :: string
  repo_size :: "pyval option"
  repo_language :: "pyval option"
  repo_visibility :: "pyval option"

record run =
  run_name :: pyval
  run_id :: int
  run_path :: "pyval option"

text \<open>
  The analyzer object with what its methods call from outside the class:
  \<^verbatim>\<open>make_api_request\<close> on the three endpoints, which returns the decoded response or raises,
  and the library's timestamp parser. The repositories request is indexed by the page, the
  runs request by repository, branch and look-back window, the jobs request by repository
  and run. In the two responses that are dictionaries, \<open>None\<close> stands for one without the
  key \<^verbatim>\<open>workflow_runs\<close> or \<^verbatim>\<open>jobs\<close>. The last field is the clock: the day \<^verbatim>\<open>datetime.now()\<close>
  gives when the runs of a repository are about to be requested, as the number of the day
  counted from 1 January of the year 1 (\<^verbatim>\<open>toordinal\<close>).
\<close>

record analyzer =
  org_name :: string
  request_repos :: "nat \<Rightarrow> error + repo list"
  request_runs :: "string \<Rightarrow> string \<Rightarrow> int \<Rightarrow> error + run list option"
  request_jobs :: "string \<Rightarrow> int \<Rightarrow> error + job list option"
  datetime_fromisoformat :: "string \<Rightarrow> error + datetime"
  today :: "string \<Rightarrow> int"

text \<open>
  \<^verbatim>\<open>get_repositories\<close>: the \<^verbatim>\<open>while True\<close> loop from the given page on. No handler surrounds the
  request, so its error is the error of the method.
\<close>

function get_repositories_from :: "analyzer \<Rightarrow> nat \<Rightarrow> repo list \<Rightarrow> error + repo list" where
  "get_repositories_from self page repos =
     (case request_repos self page of
        Inl e \<Rightarrow> Inl e
      | Inr data \<Rightarrow>
          if data = [] then Inr repos
          else if page + 1 > 100 then Inr (repos @ data)
          else get_repositories_from self (page + 1) (repos @ data))"
  by pat_completeness auto
termination
  by (relation "measure (\<lambda>(self, page, repos). 101 - page)") auto

definition get_repositories :: "analyzer \<Rightarrow> error + repo list" where
  "get_repositories self = get_repositories_from self 1 []"

text \<open>
  The date arithmetic of \<^verbatim>\<open>get_workflow_runs\<close>,
  \<^verbatim>\<open>datetime.now() - timedelta(days=days_back)\<close>, which stands before the \<^verbatim>\<open>try\<close>. A
  \<^verbatim>\<open>timedelta\<close> of more than 999999999 days and a date before the year 1 or after the year
  9999 (whose last day has the number 3652059) do not exist: Python raises
  \<^verbatim>\<open>OverflowError\<close>. The result is the day the look-back window starts.
\<close>

definition since_date :: "analyzer \<Rightarrow> string \<Rightarrow> int \<Rightarrow> error + int" where
  "since_date self name days_back =
     (if \<bar>days_back\<bar> \<le> 999999999
         \<and> 1 \<le> today self name - days_back \<and> today self name - days_back \<le> 3652059
      then Inr (today self name - days_back)
      else Inl OverflowError)"

text \<open>
  \<^verbatim>\<open>get_workflow_runs\<close> and \<^verbatim>\<open>get_jobs_for_run\<close>: the handler
  \<^verbatim>\<open>except GitHubAPIError\<close> turns that error into the empty list. In the first the date
  arithmetic comes before the request and outside the handler.
\<close>

definition get_workflow_runs :: "analyzer \<Rightarrow> string \<Rightarrow> string \<Rightarrow> int \<Rightarrow> error + run list" where
  "get_workflow_runs self name branch days_back =
     (case since_date self name days_back of
        Inl e \<Rightarrow> Inl e
      | Inr since \<Rightarrow>
          (case request_runs self name branch days_back of
             Inr data \<Rightarrow> Inr (get_or data [])
           | Inl e \<Rightarrow> if e = GitHubAPIError then Inr [] else Inl e))"

definition get_jobs_for_run :: "analyzer \<Rightarrow> string \<Rightarrow> int \<Rightarrow> error + job list" where
  "get_jobs_for_run self name rid =
     (case request_jobs self name rid of
        Inr data \<Rightarrow> Inr (get_or data [])
      | Inl e \<Rightarrow> if e = GitHubAPIError then Inr [] else Inl e)"

text \<open>
  The body of the innermost loop of \<^verbatim>\<open>analyze_runner_usage\<close>: the records one job adds to
  \<^verbatim>\<open>results\<close>, none when a filter skips the job. The filters are \<open>None\<close> for Python's
  \<^verbatim>\<open>None\<close>.
\<close>

definition job_results :: "analyzer \<Rightarrow> string option \<Rightarrow> string option \<Rightarrow> repo \<Rightarrow> run \<Rightarrow> job \<Rightarrow>
    error + job_record list" where
  "job_results self target_label status_filter rp rn j =
     (let labels = get_or (job_labels j) [];
          status = get_or (job_status j) ''unknown'';
          runner_label = (if labels \<noteq> [] then join '', '' labels else ''unknown'')
      in if (case status_filter of None \<Rightarrow> False | Some f \<Rightarrow> f \<noteq> [] \<and> lower f \<noteq> lower status)
         then Inr []
         else if (case target_label of None \<Rightarrow> True | Some t \<Rightarrow> t \<in> set labels) then
           (let runner_type = categorize_runner labels;
                cost_category = get_cost_category labels
            in case calculate_duration (datetime_fromisoformat self) j of
                 Inl e \<Rightarrow> Inl e
               | Inr duration \<Rightarrow>
                   Inr [\<lparr>Org = org_name self,
                         Repo = repo_name rp,
                         Branch = repo_default_branch rp,
                         Workflow_File = get_or (run_path rn) (Str []),
                         Workflow_Name = run_name rn,
                         Runner_Labels = runner_label,
                         Runner_Type = runner_type,
                         Cost_Category = cost_category,
                         Job_Name = job_name j,
                         Job_Status = status,
                         Run_Date = get_or (job_started_at j) (Str []),
                         Completed_Date = get_or (job_completed_at j) (Str []),
                         Duration = duration,
                         Run_ID = run_id rn,
                         Job_ID = get_or (job_id j) (Str []),
                         Conclusion = get_or (job_conclusion j) (Str ''unknown''),
                         HTML_URL = get_or (job_html_url j) (Str []),
                         Repository_Size = get_or (repo_size rp) (Num 0),
                         Repository_Language = get_or (repo_language rp) (Str ''unknown''),
                         Repository_Visibility = get_or (repo_visibility rp) (Str ''unknown'')\<rparr>])
         else Inr [])"

text \<open>The three nested \<^verbatim>\<open>for\<close> loops, each carrying the list \<^verbatim>\<open>results\<close>.\<close>

fun jobs_loop :: "analyzer \<Rightarrow> string option \<Rightarrow> string option \<Rightarrow> repo \<Rightarrow> run \<Rightarrow> job list \<Rightarrow>
    job_record list \<Rightarrow> error + job_record list" where
  "jobs_loop self target_label status_filter rp rn [] results = Inr results"
| "jobs_loop self target_label status_filter rp rn (j # jobs) results =
     (case job_results self target_label status_filter rp rn j of
        Inl e \<Rightarrow> Inl e
      | Inr new \<Rightarrow> jobs_loop self target_label status_filter rp rn jobs (results @ new))"

fun runs_loop :: "analyzer \<Rightarrow> string option \<Rightarrow> string option \<Rightarrow> repo \<Rightarrow> run list \<Rightarrow>
    job_record list \<Rightarrow> error + job_record list" where
  "runs_loop self target_label status_filter rp [] results = Inr results"
| "runs_loop self target_label status_filter rp (rn # runs) results =
     (case get_jobs_for_run self (repo_name rp) (run_id rn) of
        Inl e \<Rightarrow> Inl e
      | Inr jobs \<Rightarrow>
          (case jobs_loop self target_label status_filter rp rn jobs results of
             Inl e \<Rightarrow> Inl e
           | Inr results' \<Rightarrow> runs_loop self target_label status_filter rp runs results'))"

fun repos_loop :: "analyzer \<Rightarrow> string option \<Rightarrow> int \<Rightarrow> string option \<Rightarrow> repo list \<Rightarrow>
    job_record list \<Rightarrow> error + job_record list" where
  "repos_loop self target_label days_back status_filter [] results = Inr results"
| "repos_loop self target_label days_back status_filter (rp # repos) results =
     (case get_workflow_runs self (repo_name rp) (repo_default_branch rp) days_back of
        Inl e \<Rightarrow> Inl e
      | Inr runs \<Rightarrow>
          (case runs_loop self target_label status_filter rp runs results of
             Inl e \<Rightarrow> Inl e
           | Inr results' \<Rightarrow> repos_loop self target_label days_back status_filter repos results'))"

text \<open>The repository filter, applied when \<^verbatim>\<open>repo_filter\<close> is a non-empty string.\<close>

definition filter_repos :: "string option \<Rightarrow> repo list \<Rightarrow> repo list" where
  "filter_repos repo_filter repos =
     (case repo_filter of
        None \<Rightarrow> repos
      | Some f \<Rightarrow>
          if f \<noteq> [] then filter (\<lambda>rp. str_in (lower f) (lower (repo_name rp))) repos
          else repos)"

text \<open>\<^verbatim>\<open>analyze_runner_usage\<close> up to the grouping step, and the whole method.\<close>

definition collect_results :: "analyzer \<Rightarrow> string option \<Rightarrow> int \<Rightarrow> string option \<Rightarrow> string option \<Rightarrow>
    error + job_record list" where
  "collect_results self target_label days_back status_filter repo_filter =
     (case get_repositories self of
        Inl e \<Rightarrow> Inl e
      | Inr repos \<Rightarrow>
          repos_loop self target_label days_back status_filter (filter_repos repo_filter repos) [])"

definition analyze_runner_usage :: "analyzer \<Rightarrow> string option \<Rightarrow> int \<Rightarrow> string \<Rightarrow> string option \<Rightarrow>
    string option \<Rightarrow> error + row list" where
  "analyze_runner_usage self target_label days_back group_by status_filter repo_filter =
     (case collect_results self target_label days_back status_filter repo_filter of
        Inl e \<Rightarrow> Inl e
      | Inr results \<Rightarrow> Inr (group_if_requested results group_by))"

text \<open>
  The invariant of the grouping loop, for the proofs: after the records \<open>D\<close> the dictionary
  has one entry for each key met, and the entry of a key holds the records of \<open>D\<close> with that
  key, in their order.
\<close>

definition grouped_inv :: "(job_record \<Rightarrow> pyval) \<Rightarrow> job_record list \<Rightarrow>
    (pyval \<times> job_record list) list \<Rightarrow> bool" where
  "grouped_inv key D G \<longleftrightarrow>
     distinct (map fst G) \<and> set (map fst G) = key ` set D \<and>
     (\<forall>r\<in>set D. map_of G (key r) = Some (filter (\<lambda>x. key x = key r) D))"

text \<open>The twenty keys of a job record.\<close>

definition record_keys :: "string list" where
  "record_keys =
     [''Org'', ''Repo'', ''Branch'', ''Workflow File'', ''Workflow Name'', ''Runner Labels'',
      ''Runner Type'', ''Cost Category'', ''Job Name'', ''Job Status'', ''Run Date'',
      ''Completed Date'', ''Duration'', ''Run ID'', ''Job ID'', ''Conclusion'', ''HTML URL'',
      ''Repository Size'', ''Repository Language'', ''Repository Visibility'']"

section \<open>A sample organisation\<close>

text \<open>
  Data to run the model on: an organisation with two repositories. The runs of \<^verbatim>\<open>api\<close> cannot
  be fetched; \<^verbatim>\<open>web\<close> has two runs, the first with three jobs, the second with jobs that
  cannot be fetched. The day is 1 January 2024, the day number 738886.
\<close>

definition job_build :: job where
  "job_build =
     \<lparr>job_labels = Some [''ubuntu-latest''], job_status = Some ''completed'',
      job_name = Str ''build'', job_started_at = Some (Str ''2024-01-01T10:00:00Z''),
      job_completed_at = Some PyNone, job_id = Some (Num 11),
      job_conclusion = Some (Str ''success''), job_html_url = None\<rparr>"

definition job_bare :: job where
  "job_bare =
     \<lparr>job_labels = Some [], job_status = Some ''queued'',
      job_name = Str ''lint'', job_started_at = None,
      job_completed_at = None, job_id = Some (Num 12),
      job_conclusion = Some PyNone, job_html_url = None\<rparr>"

definition job_gpu :: job where
  "job_gpu =
     \<lparr>job_labels = Some [''self-hosted'', ''gpu''], job_status = Some ''failure'',
      job_name = Str ''train'', job_started_at = Some (Str ''yesterday''),
      job_completed_at = Some (Str ''2024-01-01T10:02:38Z''), job_id = Some (Num 13),
      job_conclusion = Some (Str ''failure''), job_html_url = None\<rparr>"

text \<open>Two jobs whose timestamps both parse: one that ends after it starts, one before.\<close>

definition job_timed :: job where
  "job_timed =
     job_build\<lparr>job_started_at := Some (Str ''2024-01-01T10:00:00Z''),
               job_completed_at := Some (Str ''2024-01-01T10:02:38Z'')\<rparr>"


definition repo_api :: repo where
  "repo_api =
     \<lparr>repo_name = ''api'', repo_default_branch = ''main'', repo_size = Some (Num 120),
      repo_language = Some (Str ''Go''), repo_visibility = Some (Str ''private'')\<rparr>"

definition repo_web :: repo where
  "repo_web =
     \<lparr>repo_name = ''web'', repo_default_branch = ''main'', repo_size = None,
      repo_language = Some PyNone, repo_visibility = None\<rparr>"

definition run_ci :: run where
  "run_ci = \<lparr>run_name = Str ''CI'', run_id = 1, run_path = Some (Str ''.github/workflows/ci.yml'')\<rparr>"

definition run_nightly :: run where
  "run_nightly = \<lparr>run_name = Str ''Nightly'', run_id = 2, run_path = None\<rparr>"

definition sample_analyzer :: analyzer where
  "sample_analyzer =
     \<lparr>org_name = ''acme'',
      request_repos = (\<lambda>page. if page = 1 then Inr [repo_api, repo_web] else Inr []),
      request_runs = (\<lambda>name branch days_back.
         if name = ''api'' then Inl GitHubAPIError else Inr (Some [run_ci, run_nightly])),
      request_jobs = (\<lambda>name rid.
         if rid = 1 then Inr (Some [job_build, job_bare, job_gpu]) else Inl GitHubAPIError),
      datetime_fromisoformat = fromisoformat,
      today = (\<lambda>name. 738886)\<rparr>"

text \<open>The records the analysis of the sample is to collect, one for each of the three jobs.\<close>

definition record_build :: job_record where
  "record_build =
     \<lparr>Org = ''acme'', Repo = ''web'', Branch = ''main'',
      Workflow_File = Str ''.github/workflows/ci.yml'', Workflow_Name = Str ''CI'',
      Runner_Labels = ''ubuntu-latest'', Runner_Type = ''GitHub-hosted'',
      Cost_Category = ''Standard GitHub-hosted'', Job_Name = Str ''build'',
      Job_Status = ''completed'', Run_Date = Str ''2024-01-01T10:00:00Z'',
      Completed_Date = PyNone, Duration = ''unknown'', Run_ID = 1, Job_ID = Num 11,
      Conclusion = Str ''success'', HTML_URL = Str [], Repository_Size = Num 0,
      Repository_Language = PyNone, Repository_Visibility = Str ''unknown''\<rparr>"

definition record_bare :: job_record where
  "record_bare =
     record_build\<lparr>Runner_Labels := ''unknown'', Runner_Type := ''Unknown'',
       Cost_Category := ''Standard'', Job_Name := Str ''lint'', Job_Status := ''queued'',
       Run_Date := Str [], Completed_Date := Str [], Job_ID := Num 12, Conclusion := PyNone\<rparr>"

definition record_gpu :: job_record where
  "record_gpu =
     record_build\<lparr>Runner_Labels := ''self-hosted, gpu'', Runner_Type := ''Self-hosted'',
       Cost_Category := ''Self-hosted (Custom Cost)'', Job_Name := Str ''train'',
       Job_Status := ''failure'', Run_Date := Str ''yesterday'',
       Completed_Date := Str ''2024-01-01T10:02:38Z'', Job_ID := Num 13,
       Conclusion := Str ''failure''\<rparr>"

definition sample_records :: "job_record list" where
  "sample_records = [record_build, record_bare, record_gpu]"

text \<open>The same organisation when the second page of its repository listing fails.\<close>

definition offline_analyzer :: analyzer where
  "offline_analyzer =
     sample_analyzer\<lparr>request_repos :=
       (\<lambda>page. if page = 1 then Inr [repo_api, repo_web] else Inl GitHubAPIError)\<rparr>"

declare get_repositories_from.simps [simp del]

section \<open>Properties of the string operations\<close>

lemma startswith_iff: "startswith s w \<longleftrightarrow> (\<exists>q. s = w @ q)"
  by (induction s w rule: startswith.induct) auto

lemma str_in_iff: "str_in w s \<longleftrightarrow> occurs_in w s"
proof (induction s)
  case Nil
  then show ?case by (auto simp: occurs_in_def)
next
  case (Cons c s)
  have "occurs_in w (c # s) \<longleftrightarrow> (\<exists>q. c # s = w @ q) \<or> occurs_in w s"
  proof
    assume "occurs_in w (c # s)"
    then obtain p q where e: "c # s = p @ w @ q" by (auto simp: occurs_in_def)
    show "(\<exists>q. c # s = w @ q) \<or> occurs_in w s"
    proof (cases p)
      case Nil
      with e show ?thesis by auto
    next
      case (Cons a p')
      with e have "s = p' @ w @ q" by simp
      then show ?thesis by (auto simp: occurs_in_def)
    qed
  next
    assume "(\<exists>q. c # s = w @ q) \<or> occurs_in w s"
    then show "occurs_in w (c # s)"
    proof
      assume "\<exists>q. c # s = w @ q"
      then obtain q where "c # s = [] @ w @ q" by auto
      then show ?thesis unfolding occurs_in_def by blast
    next
      assume "occurs_in w s"
      then obtain p q where "s = p @ w @ q" by (auto simp: occurs_in_def)
      then have "c # s = (c # p) @ w @ q" by simp
      then show ?thesis unfolding occurs_in_def by blast
    qed
  qed
  with Cons show ?case by (simp add: startswith_iff)
qed

text \<open>
  A block without the separator character lies on one side of a separator: it cannot
  stretch over it.
\<close>

lemma occurs_in_separated:
  assumes "c \<notin> set w" "w \<noteq> []"
  shows "occurs_in w (a @ c # b) \<longleftrightarrow> occurs_in w a \<or> occurs_in w b"
proof
  assume "occurs_in w (a @ c # b)"
  then obtain p q where e: "a @ c # b = p @ w @ q" by (auto simp: occurs_in_def)
  then consider us where "a = p @ us" "us @ c # b = w @ q"
    | us where "a @ us = p" "c # b = us @ w @ q"
    by (auto simp: append_eq_append_conv2)
  then show "occurs_in w a \<or> occurs_in w b"
  proof cases
    case 1
    from 1(2) consider vs where "us = w @ vs"
      | vs where "us @ vs = w" "c # b = vs @ q"
      by (auto simp: append_eq_append_conv2)
    then show ?thesis
    proof cases
      case 1
      with \<open>a = p @ us\<close> show ?thesis unfolding occurs_in_def by blast
    next
      case 2
      show ?thesis
      proof (cases vs)
        case Nil
        with 2 \<open>a = p @ us\<close> have "a = p @ w @ []" by simp
        then show ?thesis unfolding occurs_in_def by blast
      next
        case (Cons v vs')
        with 2 have "c \<in> set w" by auto
        with assms show ?thesis by simp
      qed
    qed
  next
    case 2
    show ?thesis
    proof (cases us)
      case Nil
      with 2 have "c # b = w @ q" by simp
      with assms have "c \<in> set w" by (cases w) auto
      with assms show ?thesis by simp
    next
      case (Cons u us')
      with 2 have "b = us' @ w @ q" by simp
      then show ?thesis unfolding occurs_in_def by blast
    qed
  qed
next
  assume "occurs_in w a \<or> occurs_in w b"
  then show "occurs_in w (a @ c # b)"
  proof
    assume "occurs_in w a"
    then obtain p q where "a = p @ w @ q" by (auto simp: occurs_in_def)
    then have "a @ c # b = p @ w @ (q @ c # b)" by simp
    then show ?thesis unfolding occurs_in_def by blast
  next
    assume "occurs_in w b"
    then obtain p q where "b = p @ w @ q" by (auto simp: occurs_in_def)
    then have "a @ c # b = (a @ c # p) @ w @ q" by simp
    then show ?thesis unfolding occurs_in_def by blast
  qed
qed

lemma lower_char_space: "lower_char c = CHR '' '' \<longleftrightarrow> c = CHR '' ''"
proof (cases "is_upper c")
  case True
  then have "of_char c + (32::nat) < 256" "of_char c + (32::nat) \<noteq> 32" "c \<noteq> CHR '' ''"
    by (auto simp: is_upper_def)
  then show ?thesis using True
    by (auto simp: lower_char_def char_of_eq_iff take_bit_eq_mod)
next
  case False
  then show ?thesis by (simp add: lower_char_def)
qed

lemma lower_char_idem: "lower_char (lower_char c) = lower_char c"
proof (cases "is_upper c")
  case True
  then have "of_char c + (32::nat) < 256" "90 < of_char c + (32::nat)"
    by (auto simp: is_upper_def)
  then have "\<not> is_upper (char_of (of_char c + (32::nat)))"
    by (simp add: is_upper_def take_bit_eq_mod)
  with True show ?thesis by (simp add: lower_char_def)
next
  case False
  then show ?thesis by (simp add: lower_char_def)
qed

lemma lower_append: "lower (a @ b) = lower a @ lower b"
  by (simp add: lower_def)

lemma lower_join_lower: "lower (join sep (map lower xs)) = lower (join sep xs)"
  by (induction sep xs rule: join.induct) (simp_all add: lower_def lower_char_idem)

text \<open>
  In the joined, lower-cased labels a word without a space occurs exactly when it occurs
  in one of the lower-cased labels.
\<close>

lemma occurs_in_joined:
  assumes "CHR '' '' \<notin> set w" "w \<noteq> []"
  shows "occurs_in w (lower (join '' '' xs)) \<longleftrightarrow> (\<exists>x\<in>set xs. occurs_in w (lower x))"
proof (induction "'' ''" xs rule: join.induct)
  case 1
  from assms show ?case by (simp add: occurs_in_def lower_def)
next
  case (2 x)
  show ?case by simp
next
  case (3 x y ys)
  have "lower (join '' '' (x # y # ys)) = lower x @ CHR '' '' # lower (join '' '' (y # ys))"
    by (simp add: lower_def lower_char_def is_upper_def)
  with 3 assms show ?case
    by (simp add: occurs_in_separated)
qed

lemma categorize_runner_occurs:
  "categorize_runner labels =
     (let has = (\<lambda>w. \<exists>x\<in>set labels. occurs_in w (lower x)) in
      if has ''self-hosted'' then ''Self-hosted''
      else if has ''ubuntu-latest'' \<or> has ''windows-latest'' \<or> has ''macos-latest''
        then ''GitHub-hosted''
      else if has ''ubuntu'' then ''Ubuntu''
      else if has ''windows'' then ''Windows''
      else if has ''macos'' then ''macOS''
      else if has ''linux'' then ''Linux''
      else ''Unknown'')"
proof -
  have j: "str_in w (lower (join '' '' labels)) \<longleftrightarrow> (\<exists>x\<in>set labels. occurs_in w (lower x))"
    if "CHR '' '' \<notin> set w" "w \<noteq> []" for w
    using that by (simp add: str_in_iff occurs_in_joined)
  have "str_in ''self-hosted'' (lower (join '' '' labels))
          \<longleftrightarrow> (\<exists>x\<in>set labels. occurs_in ''self-hosted'' (lower x))"
       "str_in ''ubuntu-latest'' (lower (join '' '' labels))
          \<longleftrightarrow> (\<exists>x\<in>set labels. occurs_in ''ubuntu-latest'' (lower x))"
       "str_in ''windows-latest'' (lower (join '' '' labels))
          \<longleftrightarrow> (\<exists>x\<in>set labels. occurs_in ''windows-latest'' (lower x))"
       "str_in ''macos-latest'' (lower (join '' '' labels))
          \<longleftrightarrow> (\<exists>x\<in>set labels. occurs_in ''macos-latest'' (lower x))"
       "str_in ''ubuntu'' (lower (join '' '' labels))
          \<longleftrightarrow> (\<exists>x\<in>set labels. occurs_in ''ubuntu'' (lower x))"
       "str_in ''windows'' (lower (join '' '' labels))
          \<longleftrightarrow> (\<exists>x\<in>set labels. occurs_in ''windows'' (lower x))"
       "str_in ''macos'' (lower (join '' '' labels))
          \<longleftrightarrow> (\<exists>x\<in>set labels. occurs_in ''macos'' (lower x))"
       "str_in ''linux'' (lower (join '' '' labels))
          \<longleftrightarrow> (\<exists>x\<in>set labels. occurs_in ''linux'' (lower x))"
    by (rule j; simp)+
  then show ?thesis
    by (simp add: categorize_runner_def Let_def)
qed

section \<open>The specification's notions and the code's\<close>

lemma same_letter_lower:
  assumes "\<not> is_upper b"
  shows "same_letter a b \<longleftrightarrow> lower_char a = b"
proof (cases "is_upper a")
  case True
  then have r: "(65::nat) \<le> of_char a" "of_char a \<le> (90::nat)" "of_char a + (32::nat) < 256"
    by (auto simp: is_upper_def)
  from True assms have ne: "a \<noteq> b" by auto
  have "char_of (of_char a + (32::nat)) = b \<longleftrightarrow> of_char b = of_char a + (32::nat)"
    using r(3) by (auto simp: char_of_eq_iff take_bit_eq_mod)
  with True r ne assms show ?thesis
    by (auto simp: same_letter_def lower_char_def is_upper_def)
next
  case False
  with assms show ?thesis
    by (auto simp: same_letter_def lower_char_def is_upper_def)
qed

lemma list_all2_same_letter:
  "\<forall>c\<in>set w. \<not> is_upper c \<Longrightarrow> list_all2 same_letter m w \<longleftrightarrow> map lower_char m = w"
proof (induction m arbitrary: w)
  case Nil
  then show ?case by auto
next
  case (Cons a m)
  then show ?case
    by (cases w) (auto simp: same_letter_lower)
qed

text \<open>
  For a word without upper-case letters, to be contained case-insensitively is to occur
  in the lower-cased string.
\<close>

lemma contains_ci_lower:
  assumes "\<forall>c\<in>set w. \<not> is_upper c"
  shows "contains_ci s w \<longleftrightarrow> occurs_in w (lower s)"
proof
  assume "contains_ci s w"
  then obtain p m q where s: "s = p @ m @ q" and m: "list_all2 same_letter m w"
    by (auto simp: contains_ci_def)
  from m assms have "map lower_char m = w"
    by (simp add: list_all2_same_letter)
  with s have "lower s = lower p @ w @ lower q"
    by (simp add: lower_def)
  then show "occurs_in w (lower s)"
    unfolding occurs_in_def by blast
next
  assume "occurs_in w (lower s)"
  then obtain p' q' where "map lower_char s = p' @ w @ q'"
    by (auto simp: occurs_in_def lower_def)
  then obtain p r where 1: "s = p @ r" "w @ q' = map lower_char r"
    unfolding map_eq_append_conv by blast
  then obtain m q where 2: "r = m @ q" "w = map lower_char m"
    unfolding append_eq_map_conv by blast
  from 2(2) [symmetric] assms have "list_all2 same_letter m w"
    by (simp only: list_all2_same_letter)
  with 1(1) 2(1) show "contains_ci s w"
    unfolding contains_ci_def by blast
qed

lemma join_whitespace: "join '' '' xs = whitespace_joined xs"
  by (induction "'' ''" xs rule: join.induct) (simp_all add: whitespace_joined_def)

section \<open>The record classifier: first match, totality, order\<close>

text \<open>
  C5. The runner-type classifier evaluates on the whitespace-joined concatenation of all
  labels, without regard to case, and returns the category of the first test that holds,
  in the order: contains \<^verbatim>\<open>self-hosted\<close>, contains one of \<^verbatim>\<open>ubuntu-latest\<close>, \<^verbatim>\<open>windows-latest\<close>,
  \<^verbatim>\<open>macos-latest\<close>, contains \<^verbatim>\<open>ubuntu\<close>, contains \<^verbatim>\<open>windows\<close>, contains \<^verbatim>\<open>macos\<close>, contains
  \<^verbatim>\<open>linux\<close>, and \<^verbatim>\<open>Unknown\<close> otherwise. The code's classifier is compared with the
  specification's notions, and run on labels that tell the case, the joining space and the
  order of the tests.
\<close>

theorem categorize_runner_first_match:
  "categorize_runner labels =
     (let s = whitespace_joined labels in
      if contains_ci s ''self-hosted'' then ''Self-hosted''
      else if contains_ci s ''ubuntu-latest'' \<or> contains_ci s ''windows-latest''
              \<or> contains_ci s ''macos-latest'' then ''GitHub-hosted''
      else if contains_ci s ''ubuntu'' then ''Ubuntu''
      else if contains_ci s ''windows'' then ''Windows''
      else if contains_ci s ''macos'' then ''macOS''
      else if contains_ci s ''linux'' then ''Linux''
      else ''Unknown'')
   \<and> categorize_runner [''UBUNTU-LATEST''] = ''GitHub-hosted''
   \<and> categorize_runner [''gpu'', ''Self-Hosted'', ''ubuntu-latest''] = ''Self-hosted''
   \<and> categorize_runner [''Self'', ''-hosted''] = ''Unknown''
   \<and> categorize_runner [''x64'', ''Ubuntu-22.04'', ''linux''] = ''Ubuntu''
   \<and> categorize_runner [''Windows-2022'', ''macos-13''] = ''Windows''
   \<and> categorize_runner [''arm64'', ''MacOS-13'', ''linux''] = ''macOS''
   \<and> categorize_runner [''gpu'', ''Linux''] = ''Linux''
   \<and> categorize_runner [''gpu'', ''large''] = ''Unknown''"
proof -
  have ci: "str_in w (lower (join '' '' labels)) \<longleftrightarrow> contains_ci (whitespace_joined labels) w"
    if "\<forall>c\<in>set w. \<not> is_upper c" for w
    using that by (simp add: str_in_iff contains_ci_lower join_whitespace)
  have "str_in ''self-hosted'' (lower (join '' '' labels))
          \<longleftrightarrow> contains_ci (whitespace_joined labels) ''self-hosted''"
       "str_in ''ubuntu-latest'' (lower (join '' '' labels))
          \<longleftrightarrow> contains_ci (whitespace_joined labels) ''ubuntu-latest''"
       "str_in ''windows-latest'' (lower (join '' '' labels))
          \<longleftrightarrow> contains_ci (whitespace_joined labels) ''windows-latest''"
       "str_in ''macos-latest'' (lower (join '' '' labels))
          \<longleftrightarrow> contains_ci (whitespace_joined labels) ''macos-latest''"
       "str_in ''ubuntu'' (lower (join '' '' labels))
          \<longleftrightarrow> contains_ci (whitespace_joined labels) ''ubuntu''"
       "str_in ''windows'' (lower (join '' '' labels))
          \<longleftrightarrow> contains_ci (whitespace_joined labels) ''windows''"
       "str_in ''macos'' (lower (join '' '' labels))
          \<longleftrightarrow> contains_ci (whitespace_joined labels) ''macos''"
       "str_in ''linux'' (lower (join '' '' labels))
          \<longleftrightarrow> contains_ci (whitespace_joined labels) ''linux''"
    by (rule ci; simp add: is_upper_def)+
  then have general: "categorize_runner labels =
     (let s = whitespace_joined labels in
      if contains_ci s ''self-hosted'' then ''Self-hosted''
      else if contains_ci s ''ubuntu-latest'' \<or> contains_ci s ''windows-latest''
              \<or> contains_ci s ''macos-latest'' then ''GitHub-hosted''
      else if contains_ci s ''ubuntu'' then ''Ubuntu''
      else if contains_ci s ''windows'' then ''Windows''
      else if contains_ci s ''macos'' then ''macOS''
      else if contains_ci s ''linux'' then ''Linux''
      else ''Unknown'')"
    by (simp add: categorize_runner_def Let_def)
  have runs: "categorize_runner [''UBUNTU-LATEST''] = ''GitHub-hosted''"
    "categorize_runner [''gpu'', ''Self-Hosted'', ''ubuntu-latest''] = ''Self-hosted''"
    "categorize_runner [''Self'', ''-hosted''] = ''Unknown''"
    "categorize_runner [''x64'', ''Ubuntu-22.04'', ''linux''] = ''Ubuntu''"
    "categorize_runner [''Windows-2022'', ''macos-13''] = ''Windows''"
    "categorize_runner [''arm64'', ''MacOS-13'', ''linux''] = ''macOS''"
    "categorize_runner [''gpu'', ''Linux''] = ''Linux''"
    "categorize_runner [''gpu'', ''large''] = ''Unknown''"
    by code_simp+
  from general runs show ?thesis
    by (intro conjI)
qed

text \<open>
  C6. The classifier is total and does not depend on the order of the labels: it returns
  one of the seven categories for every list, \<^verbatim>\<open>Unknown\<close> for the empty list, and the same
  category for every permutation of a list.
\<close>

theorem categorize_runner_order_independent:
  "categorize_runner [] = ''Unknown''
   \<and> categorize_runner L \<in> {''Self-hosted'', ''GitHub-hosted'', ''Ubuntu'', ''Windows'', ''macOS'',
        ''Linux'', ''Unknown''}
   \<and> (mset L' = mset L \<longrightarrow> categorize_runner L' = categorize_runner L)"
proof (intro conjI impI)
  show "categorize_runner [] = ''Unknown''"
    by (simp add: categorize_runner_occurs)
  show "categorize_runner L \<in> {''Self-hosted'', ''GitHub-hosted'', ''Ubuntu'', ''Windows'', ''macOS'',
        ''Linux'', ''Unknown''}"
    by (simp add: categorize_runner_def Let_def)
  assume "mset L' = mset L"
  then have "set L' = set L" by (rule mset_eq_setD)
  then show "categorize_runner L' = categorize_runner L"
    by (simp add: categorize_runner_occurs)
qed

theorem categorize_runner_order_independent_witness:
  "mset [''self-hosted'', ''linux''] = mset [''linux'', ''self-hosted'']
   \<and> categorize_runner [''self-hosted'', ''linux''] = categorize_runner [''linux'', ''self-hosted'']
   \<and> categorize_runner [''linux'', ''self-hosted''] = ''Self-hosted''"
proof -
  have m: "mset [''self-hosted'', ''linux''] = mset [''linux'', ''self-hosted'']"
    by (simp add: add.commute)
  have v: "categorize_runner [''linux'', ''self-hosted''] = ''Self-hosted''"
    by code_simp
  from categorize_runner_order_independent [of "[''linux'', ''self-hosted'']" "[''self-hosted'', ''linux'']"] m v
  show ?thesis by blast
qed

section \<open>The sample organisation, analysed\<close>

text \<open>
  The analysis of the sample collects the three records: the repository whose runs and
  the run whose jobs cannot be fetched add nothing, and do not stop it.
\<close>

lemma sample_collected:
  "collect_results sample_analyzer None 30 None None = Inr sample_records"
  by code_simp

section \<open>Properties of the grouping loop\<close>

lemma keys_grouped_append:
  "map fst (grouped_append k r G) = (if k \<in> set (map fst G) then map fst G else map fst G @ [k])"
  by (induction k r G rule: grouped_append.induct) auto

lemma map_of_grouped_append:
  "map_of (grouped_append k r G) =
     (map_of G)(k \<mapsto> (case map_of G k of None \<Rightarrow> [r] | Some its \<Rightarrow> its @ [r]))"
  by (induction k r G rule: grouped_append.induct) (auto simp: fun_eq_iff)

lemma total_grouped_append:
  "sum_list (map (\<lambda>g. length (snd g)) (grouped_append k r G))
     = Suc (sum_list (map (\<lambda>g. length (snd g)) G))"
  by (induction k r G rule: grouped_append.induct) auto

lemma total_group_loop:
  "sum_list (map (\<lambda>g. length (snd g)) (group_loop gb R G))
     = sum_list (map (\<lambda>g. length (snd g)) G) + length R"
  by (induction R arbitrary: G) (auto simp: total_grouped_append)

lemma grouped_inv_step:
  assumes "grouped_inv key D G"
  shows "grouped_inv key (D @ [r]) (grouped_append (key r) r G)"
proof -
  from assms have d: "distinct (map fst G)" and k: "set (map fst G) = key ` set D"
    and m: "\<And>x. x \<in> set D \<Longrightarrow> map_of G (key x) = Some (filter (\<lambda>y. key y = key x) D)"
    by (auto simp: grouped_inv_def)
  have entry: "(case map_of G (key r) of None \<Rightarrow> [r] | Some its \<Rightarrow> its @ [r])
               = filter (\<lambda>y. key y = key r) (D @ [r])"
  proof (cases "key r \<in> key ` set D")
    case True
    then obtain x where "x \<in> set D" "key x = key r" by auto
    with m [of x] show ?thesis by simp
  next
    case False
    with k have none: "map_of G (key r) = None"
      by (metis map_of_eq_None_iff set_map)
    from False have "\<forall>y\<in>set D. key y \<noteq> key r"
      by (metis imageI)
    then have "filter (\<lambda>y. key y = key r) D = []"
      by (simp add: filter_empty_conv)
    with none show ?thesis by simp
  qed
  have "distinct (map fst (grouped_append (key r) r G))"
    using d by (simp add: keys_grouped_append)
  moreover have "set (map fst (grouped_append (key r) r G)) = key ` set (D @ [r])"
    using k by (auto simp: keys_grouped_append)
  moreover have "map_of (grouped_append (key r) r G) (key x)
                   = Some (filter (\<lambda>y. key y = key x) (D @ [r]))" if "x \<in> set (D @ [r])" for x
  proof (cases "key x = key r")
    case True
    with entry show ?thesis by (simp add: map_of_grouped_append)
  next
    case False
    with that have "x \<in> set D" by auto
    with m [of x] False show ?thesis by (simp add: map_of_grouped_append)
  qed
  ultimately show ?thesis unfolding grouped_inv_def by blast
qed

lemma grouped_inv_loop:
  "grouped_inv (group_key gb) D G \<Longrightarrow> grouped_inv (group_key gb) (D @ R) (group_loop gb R G)"
proof (induction R arbitrary: D G)
  case Nil
  then show ?case by simp
next
  case (Cons r R)
  from Cons.IH [OF grouped_inv_step [OF Cons.prems, of r]] show ?case by simp
qed

lemma grouped_inv_group_loop: "grouped_inv (group_key gb) R (group_loop gb R [])"
  using grouped_inv_loop [of gb "[]" "[]" R] by (simp add: grouped_inv_def)

text \<open>What the loop has put under a key: the records with that key, at least one.\<close>

lemma group_loop_entry:
  assumes "(k, its) \<in> set (group_loop gb R [])"
  shows "its = filter (\<lambda>r. group_key gb r = k) R \<and> its \<noteq> []"
proof -
  let ?G = "group_loop gb R []"
  from grouped_inv_group_loop [of gb R]
  have d: "distinct (map fst ?G)" and ks: "set (map fst ?G) = group_key gb ` set R"
    and m: "\<And>x. x \<in> set R \<Longrightarrow>
              map_of ?G (group_key gb x) = Some (filter (\<lambda>y. group_key gb y = group_key gb x) R)"
    by (auto simp: grouped_inv_def)
  from assms have "k \<in> set (map fst ?G)" by force
  with ks obtain x where x: "x \<in> set R" "group_key gb x = k" by auto
  from d assms have "map_of ?G k = Some its" by simp
  with m [OF x(1)] x(2) have its: "its = filter (\<lambda>r. group_key gb r = k) R" by simp
  from x have "x \<in> set (filter (\<lambda>r. group_key gb r = k) R)" by simp
  then have "filter (\<lambda>r. group_key gb r = k) R \<noteq> []"
    by (metis empty_iff empty_set)
  with its show ?thesis by simp
qed

lemma group_loop_same_key:
  "\<forall>r\<in>set R. group_key gb r = k \<Longrightarrow> group_loop gb R [(k, its)] = [(k, its @ R)]"
  by (induction R arbitrary: its) auto

lemma group_loop_single:
  assumes "R \<noteq> []" "\<forall>r\<in>set R. group_key gb r = k"
  shows "group_loop gb R [] = [(k, R)]"
proof (cases R)
  case Nil
  with assms show ?thesis by simp
next
  case (Cons r R')
  with assms group_loop_same_key [of R' gb k "[r]"] show ?thesis by simp
qed

lemma summary_fields:
  "Group (summary gb (k, its)) = k"
  "Total_Jobs (summary gb (k, its)) = int (length its)"
  by (simp_all add: summary_def)

lemma summary_totals:
  "sum_list (map Total_Jobs (map (summary gb) G)) = int (sum_list (map (\<lambda>g. length (snd g)) G))"
  by (induction G) (auto simp: summary_def)

lemma summary_counts:
  "0 \<le> Successful_Jobs (summary gb g) \<and> 0 \<le> Failed_Jobs (summary gb g)
   \<and> 0 \<le> Total_Jobs (summary gb g)
   \<and> Successful_Jobs (summary gb g) + Failed_Jobs (summary gb g) \<le> Total_Jobs (summary gb g)"
proof -
  obtain k its where g: "g = (k, its)" by (cases g)
  have "length (filter (\<lambda>item. Job_Status item = ''completed'') its)
          + length (filter (\<lambda>item. Job_Status item = ''failure'') its) \<le> length its"
    by (induction its) auto
  with g show ?thesis by (simp add: summary_def)
qed

section \<open>The aggregator\<close>

text \<open>
  C3. With \<^verbatim>\<open>group_by\<close> equal to \<^verbatim>\<open>"none"\<close> the grouping step returns the records it is given,
  unchanged and in their order, and so the whole analysis returns the records it
  collected.
\<close>

theorem flat_mode_identity:
  "group_if_requested R ''none'' = map JobRow R
   \<and> analyze_runner_usage self target_label days_back ''none'' status_filter repo_filter
       = (case collect_results self target_label days_back status_filter repo_filter of
            Inl e \<Rightarrow> Inl e
          | Inr results \<Rightarrow> Inr (map JobRow results))"
  by (simp add: group_if_requested_def analyze_runner_usage_def split: sum.splits)

text \<open>
  C4. Grouping a non-empty list of records by any field partitions it: all rows are
  summaries, no two of the same group; each record finds exactly one summary whose group
  is its key; the total of a summary is the number of records with its key, which is not
  zero; and the totals add up to the number of records.
\<close>

theorem group_results_partition:
  assumes "R \<noteq> []"
  shows "\<exists>ss. group_results R gb = map SummaryRow ss
           \<and> distinct (map Group ss)
           \<and> (\<forall>r\<in>set R. \<exists>!s. s \<in> set ss \<and> Group s = group_key gb r)
           \<and> (\<forall>s\<in>set ss. Total_Jobs s = int (length (filter (\<lambda>r. group_key gb r = Group s) R))
                  \<and> 0 < Total_Jobs s)
           \<and> sum_list (map Total_Jobs ss) = int (length R)"
proof -
  let ?G = "group_loop gb R []"
  let ?ss = "map (summary gb) ?G"
  from grouped_inv_group_loop [of gb R]
  have d: "distinct (map fst ?G)" and ks: "set (map fst ?G) = group_key gb ` set R"
    by (auto simp: grouped_inv_def)
  have groups: "map Group ?ss = map fst ?G"
    by (auto simp: summary_fields)
  have rows: "group_results R gb = map SummaryRow ?ss"
    using assms by (simp add: group_results_def)
  have dist: "distinct (map Group ?ss)"
    using d by (simp only: groups)
  have one: "\<exists>!s. s \<in> set ?ss \<and> Group s = group_key gb r" if "r \<in> set R" for r
  proof -
    from that ks have "group_key gb r \<in> set (map Group ?ss)"
      unfolding groups by blast
    then have "group_key gb r \<in> Group ` set ?ss" by (simp only: set_map)
    then obtain s where s0: "group_key gb r = Group s" "s \<in> set ?ss" by (rule imageE)
    then have s: "s \<in> set ?ss" "Group s = group_key gb r" by simp_all
    have "s' = s" if "s' \<in> set ?ss" "Group s' = group_key gb r" for s'
      using dist s that by (metis distinct_map inj_onD)
    with s show ?thesis by blast
  qed
  have tot: "Total_Jobs s = int (length (filter (\<lambda>r. group_key gb r = Group s) R))
               \<and> 0 < Total_Jobs s" if "s \<in> set ?ss" for s
  proof -
    from that obtain k its where g: "(k, its) \<in> set ?G" "s = summary gb (k, its)" by auto
    from group_loop_entry [OF g(1)]
    have "its = filter (\<lambda>r. group_key gb r = k) R" "its \<noteq> []" by blast+
    then have "int (length its) = int (length (filter (\<lambda>r. group_key gb r = k) R))"
      "0 < int (length its)" by simp_all
    with g(2) show ?thesis
      by (simp only: summary_fields)
  qed
  have sum: "sum_list (map Total_Jobs ?ss) = int (length R)"
    by (simp only: summary_totals total_group_loop) simp
  from rows dist one tot sum show ?thesis by blast
qed

theorem group_results_partition_witness:
  "sample_records \<noteq> []
   \<and> (\<exists>ss. group_results sample_records ''status'' = map SummaryRow ss
           \<and> distinct (map Group ss)
           \<and> (\<forall>r\<in>set sample_records. \<exists>!s. s \<in> set ss \<and> Group s = group_key ''status'' r)
           \<and> (\<forall>s\<in>set ss. Total_Jobs s
                   = int (length (filter (\<lambda>r. group_key ''status'' r = Group s) sample_records))
                  \<and> 0 < Total_Jobs s)
           \<and> sum_list (map Total_Jobs ss) = int (length sample_records))
   \<and> group_results sample_records ''status'' =
       [SummaryRow \<lparr>Group = Str ''completed'', Group_Type = ''Status'', Total_Jobs = 1,
          Successful_Jobs = 1, Failed_Jobs = 0, Sample_Repository = ''web''\<rparr>,
        SummaryRow \<lparr>Group = Str ''queued'', Group_Type = ''Status'', Total_Jobs = 1,
          Successful_Jobs = 0, Failed_Jobs = 0, Sample_Repository = ''web''\<rparr>,
        SummaryRow \<lparr>Group = Str ''failure'', Group_Type = ''Status'', Total_Jobs = 1,
          Successful_Jobs = 0, Failed_Jobs = 1, Sample_Repository = ''web''\<rparr>]"
proof -
  have ne: "sample_records \<noteq> []"
    by (simp add: sample_records_def)
  have rows: "group_results sample_records ''status'' =
       [SummaryRow \<lparr>Group = Str ''completed'', Group_Type = ''Status'', Total_Jobs = 1,
          Successful_Jobs = 1, Failed_Jobs = 0, Sample_Repository = ''web''\<rparr>,
        SummaryRow \<lparr>Group = Str ''queued'', Group_Type = ''Status'', Total_Jobs = 1,
          Successful_Jobs = 0, Failed_Jobs = 0, Sample_Repository = ''web''\<rparr>,
        SummaryRow \<lparr>Group = Str ''failure'', Group_Type = ''Status'', Total_Jobs = 1,
          Successful_Jobs = 0, Failed_Jobs = 1, Sample_Repository = ''web''\<rparr>]"
    by code_simp
  from ne group_results_partition [OF ne, of "''status''"] rows show ?thesis
    by (intro conjI)
qed

text \<open>
  C10. In every summary that grouping produces the three counts are not negative, and
  the successful and the failed jobs together are at most the total: a record counts as
  successful when its status is \<^verbatim>\<open>completed\<close>, as failed when it is \<^verbatim>\<open>failure\<close>, never as
  both.
\<close>

theorem group_results_counts:
  "SummaryRow s \<in> set (group_results R gb) \<Longrightarrow>
     0 \<le> Successful_Jobs s \<and> 0 \<le> Failed_Jobs s \<and> 0 \<le> Total_Jobs s
     \<and> Successful_Jobs s + Failed_Jobs s \<le> Total_Jobs s"
proof -
  assume "SummaryRow s \<in> set (group_results R gb)"
  then obtain g where "s = summary gb g"
    by (auto simp: group_results_def split: if_splits)
  with summary_counts [of gb g] show ?thesis by simp
qed

theorem group_results_counts_witness:
  "SummaryRow \<lparr>Group = Str ''web'', Group_Type = ''Repo'', Total_Jobs = 3,
          Successful_Jobs = 1, Failed_Jobs = 1, Sample_Repository = ''web''\<rparr>
     \<in> set (group_results sample_records ''repo'')
   \<and> (0::int) \<le> 1 \<and> (0::int) \<le> 3 \<and> (1::int) + 1 \<le> 3"
proof -
  have mem: "SummaryRow \<lparr>Group = Str ''web'', Group_Type = ''Repo'', Total_Jobs = 3,
          Successful_Jobs = 1, Failed_Jobs = 1, Sample_Repository = ''web''\<rparr>
     \<in> set (group_results sample_records ''repo'')"
    by code_simp
  from mem group_results_counts [OF mem] show ?thesis by simp
qed

section \<open>The group key of an unrecognized field\<close>

lemma record_items_keys: "map fst (record_items r) = record_keys"
  by (simp add: record_items_def record_keys_def)

lemma record_get_None:
  assumes "k \<notin> set record_keys"
  shows "record_get r k = None"
proof -
  from assms have "k \<notin> set (map fst (record_items r))"
    by (simp add: record_items_keys)
  then have "k \<notin> fst ` set (record_items r)"
    by simp
  then show ?thesis
    by (simp add: record_get_def map_of_eq_None_iff)
qed

lemma record_get_Some:
  assumes "k \<in> set record_keys"
  shows "\<exists>v. record_get r k = Some v"
proof -
  have "set record_keys = fst ` set (record_items r)"
    using record_items_keys [of r] by (metis set_map)
  with assms have "k \<in> fst ` set (record_items r)"
    by simp
  then have "record_get r k \<noteq> None"
    by (simp add: record_get_def map_of_eq_None_iff)
  then show ?thesis by auto
qed

text \<open>
  C8, as the code has it. The key is first looked up under \<^verbatim>\<open>group_by.title()\<close>. For a
  \<^verbatim>\<open>group_by\<close> that is none of the six aliases \<^verbatim>\<open>label\<close>, \<^verbatim>\<open>status\<close>, \<^verbatim>\<open>workflow\<close>, \<^verbatim>\<open>branch\<close>,
  \<^verbatim>\<open>runner_type\<close>, \<^verbatim>\<open>cost_category\<close>: when its title-cased form is a key of the record, the
  record has that field and the group key of every record is the value of that field; when
  its title-cased form is no key of the record, the group key of every record is
  \<^verbatim>\<open>Unknown\<close>, and grouping a non-empty list gives a single summary, of the group \<^verbatim>\<open>Unknown\<close>,
  that counts all the records.
\<close>

theorem unrecognized_group_by:
  assumes "gb \<notin> set [''label'', ''status'', ''workflow'', ''branch'', ''runner_type'', ''cost_category'']"
  shows "(title gb \<in> set record_keys \<longrightarrow>
            (\<forall>r. \<exists>v. record_get r (title gb) = Some v \<and> group_key gb r = v))
    \<and> (title gb \<notin> set record_keys \<longrightarrow>
            (\<forall>r. group_key gb r = Str ''Unknown'')
            \<and> (R \<noteq> [] \<longrightarrow>
                  group_results R gb = [SummaryRow (summary gb (Str ''Unknown'', R))]
                  \<and> Group (summary gb (Str ''Unknown'', R)) = Str ''Unknown''
                  \<and> Total_Jobs (summary gb (Str ''Unknown'', R)) = int (length R)))"
proof (intro conjI impI allI)
  fix r
  assume "title gb \<in> set record_keys"
  then obtain v where "record_get r (title gb) = Some v"
    using record_get_Some by blast
  with assms show "\<exists>v. record_get r (title gb) = Some v \<and> group_key gb r = v"
    by (simp add: group_key_def get_or_def)
next
  fix r
  assume "title gb \<notin> set record_keys"
  with assms show "group_key gb r = Str ''Unknown''"
    by (simp add: group_key_def get_or_def record_get_None)
next
  assume k: "title gb \<notin> set record_keys" and ne: "R \<noteq> []"
  have key: "group_key gb r = Str ''Unknown''" for r
    using assms k by (simp add: group_key_def get_or_def record_get_None)
  then have "group_loop gb R [] = [(Str ''Unknown'', R)]"
    using ne by (intro group_loop_single) simp_all
  with ne show "group_results R gb = [SummaryRow (summary gb (Str ''Unknown'', R))]"
    by (simp add: group_results_def)
next
  show "Group (summary gb (Str ''Unknown'', R)) = Str ''Unknown''"
    by (simp add: summary_fields)
next
  show "Total_Jobs (summary gb (Str ''Unknown'', R)) = int (length R)"
    by (simp add: summary_fields)
qed

theorem unrecognized_group_by_witness:
  "''priority'' \<notin> set [''label'', ''status'', ''workflow'', ''branch'', ''runner_type'', ''cost_category'']
   \<and> title ''priority'' \<notin> set record_keys
   \<and> sample_records \<noteq> []
   \<and> group_results sample_records ''priority'' =
       [SummaryRow \<lparr>Group = Str ''Unknown'', Group_Type = ''Priority'', Total_Jobs = 3,
          Successful_Jobs = 1, Failed_Jobs = 1, Sample_Repository = ''web''\<rparr>]
   \<and> ''job status'' \<notin> set [''label'', ''status'', ''workflow'', ''branch'', ''runner_type'', ''cost_category'']
   \<and> title ''job status'' \<in> set record_keys
   \<and> record_get record_gpu (title ''job status'') = Some (Str ''failure'')
   \<and> group_key ''job status'' record_gpu = Str ''failure''"
proof -
  have h1: "sample_records \<noteq> []"
    by (simp add: sample_records_def)
  have h2: "''priority'' \<notin> set [''label'', ''status'', ''workflow'', ''branch'', ''runner_type'', ''cost_category'']"
    by simp
  have h3: "title ''priority'' \<notin> set record_keys"
    by code_simp
  have s: "summary ''priority'' (Str ''Unknown'', sample_records) =
      \<lparr>Group = Str ''Unknown'', Group_Type = ''Priority'', Total_Jobs = 3,
          Successful_Jobs = 1, Failed_Jobs = 1, Sample_Repository = ''web''\<rparr>"
    by code_simp
  from unrecognized_group_by [OF h2, of sample_records] h3 h1
  have "group_results sample_records ''priority''
          = [SummaryRow (summary ''priority'' (Str ''Unknown'', sample_records))]"
    by blast
  with s have a: "group_results sample_records ''priority'' =
       [SummaryRow \<lparr>Group = Str ''Unknown'', Group_Type = ''Priority'', Total_Jobs = 3,
          Successful_Jobs = 1, Failed_Jobs = 1, Sample_Repository = ''web''\<rparr>]"
    by simp
  have g2: "''job status'' \<notin> set [''label'', ''status'', ''workflow'', ''branch'', ''runner_type'', ''cost_category'']"
    by simp
  have g3: "title ''job status'' \<in> set record_keys"
    by code_simp
  have g4: "record_get record_gpu (title ''job status'') = Some (Str ''failure'')"
    by code_simp
  from unrecognized_group_by [OF g2, of sample_records] g3
  obtain v where "record_get record_gpu (title ''job status'') = Some v"
    "group_key ''job status'' record_gpu = v"
    by blast
  with g4 have b: "group_key ''job status'' record_gpu = Str ''failure''"
    by simp
  from h2 h3 h1 a g2 g3 g4 b show ?thesis
    by (intro conjI)
qed

text \<open>
  The claim as the specification states it fails for the field name \<^verbatim>\<open>conclusion\<close>: it is not
  in the recognized set, and the sample records are grouped by their conclusion, none of
  them under \<^verbatim>\<open>Unknown\<close>.
\<close>

theorem group_by_conclusion_counterexample:
  "''conclusion'' \<notin> set [''repo'', ''label'', ''status'', ''workflow'', ''branch'', ''runner_type'',
       ''cost_category'']
   \<and> map (group_key ''conclusion'') sample_records = [Str ''success'', PyNone, Str ''failure'']
   \<and> group_results sample_records ''conclusion'' =
       [SummaryRow \<lparr>Group = Str ''success'', Group_Type = ''Conclusion'', Total_Jobs = 1,
          Successful_Jobs = 1, Failed_Jobs = 0, Sample_Repository = ''web''\<rparr>,
        SummaryRow \<lparr>Group = PyNone, Group_Type = ''Conclusion'', Total_Jobs = 1,
          Successful_Jobs = 0, Failed_Jobs = 0, Sample_Repository = ''web''\<rparr>,
        SummaryRow \<lparr>Group = Str ''failure'', Group_Type = ''Conclusion'', Total_Jobs = 1,
          Successful_Jobs = 0, Failed_Jobs = 1, Sample_Repository = ''web''\<rparr>]"
  by code_simp

section \<open>Jobs without labels\<close>

lemma classify_no_labels:
  "categorize_runner [] = ''Unknown''" "get_cost_category [] = ''Standard''"
  by (simp_all add: categorize_runner_def get_cost_category_def lower_def)

text \<open>
  C9. A record emitted for a job whose label list is empty (or absent) has the runner
  labels \<^verbatim>\<open>unknown\<close>, the runner type \<^verbatim>\<open>Unknown\<close> and the cost category \<^verbatim>\<open>Standard\<close>.
\<close>

theorem empty_labels_record:
  assumes "get_or (job_labels j) [] = []"
    and "job_results self target_label status_filter rp rn j = Inr rs"
    and "r \<in> set rs"
  shows "Runner_Labels r = ''unknown'' \<and> Runner_Type r = ''Unknown'' \<and> Cost_Category r = ''Standard''"
proof -
  from assms(2,3) obtain duration where
    "r = \<lparr>Org = org_name self,
          Repo = repo_name rp,
          Branch = repo_default_branch rp,
          Workflow_File = get_or (run_path rn) (Str []),
          Workflow_Name = run_name rn,
          Runner_Labels = ''unknown'',
          Runner_Type = categorize_runner [],
          Cost_Category = get_cost_category [],
          Job_Name = job_name j,
          Job_Status = get_or (job_status j) ''unknown'',
          Run_Date = get_or (job_started_at j) (Str []),
          Completed_Date = get_or (job_completed_at j) (Str []),
          Duration = duration,
          Run_ID = run_id rn,
          Job_ID = get_or (job_id j) (Str []),
          Conclusion = get_or (job_conclusion j) (Str ''unknown''),
          HTML_URL = get_or (job_html_url j) (Str []),
          Repository_Size = get_or (repo_size rp) (Num 0),
          Repository_Language = get_or (repo_language rp) (Str ''unknown''),
          Repository_Visibility = get_or (repo_visibility rp) (Str ''unknown'')\<rparr>"
    unfolding job_results_def Let_def assms(1)
    by (auto split: if_splits sum.splits)
  then show ?thesis
    by (simp add: classify_no_labels)
qed

theorem empty_labels_record_witness:
  "get_or (job_labels job_bare) [] = []
   \<and> job_results sample_analyzer None None repo_web run_ci job_bare = Inr [record_bare]
   \<and> Runner_Labels record_bare = ''unknown'' \<and> Runner_Type record_bare = ''Unknown''
   \<and> Cost_Category record_bare = ''Standard''"
proof -
  have h1: "get_or (job_labels job_bare) [] = []"
    by (simp add: job_bare_def get_or_def)
  have h2: "job_results sample_analyzer None None repo_web run_ci job_bare = Inr [record_bare]"
    by code_simp
  have h3: "record_bare \<in> set [record_bare]"
    by simp
  from empty_labels_record [OF h1 h2 h3] h1 h2 show ?thesis
    by simp
qed

section \<open>The duration calculator\<close>

text \<open>
  Whatever the parser: when both timestamps are non-empty strings that parse and can be
  subtracted, the calculator raises \<^verbatim>\<open>AttributeError\<close>, for the method
  \<^verbatim>\<open>_parse_iso_datetime\<close> it then calls does not exist.
\<close>

lemma calculate_duration_parsed:
  assumes "job_started_at j = Some (Str s)" "s \<noteq> []"
    and "job_completed_at j = Some (Str c)" "c \<noteq> []"
    and "parse (replace_Z s) = Inr start_time" "parse (replace_Z c) = Inr end_time"
    and "datetime_sub end_time start_time = Inr duration"
  shows "calculate_duration parse j = Inl AttributeError"
  using assms by (simp add: calculate_duration_def Let_def get_or_def str_replace_Z_def caught_def)

text \<open>The parser and the subtraction on the timestamps of the sample.\<close>

lemma replace_Z_sample:
  "replace_Z ''2024-01-01T10:00:00Z'' = ''2024-01-01T10:00:00+00:00''"
  "replace_Z ''2024-01-01T10:02:38Z'' = ''2024-01-01T10:02:38+00:00''"
  "replace_Z ''yesterday'' = ''yesterday''"
  by (simp_all add: replace_Z_def)

lemma number_sample:
  "number ''2024'' = Some 2024" "number ''01'' = Some 1" "number ''10'' = Some 10"
  "number ''00'' = Some 0" "number ''02'' = Some 2" "number ''38'' = Some 38"
  by (simp_all add: number_def digit_val_def)

lemma fromisoformat_sample:
  "fromisoformat ''2024-01-01T10:00:00+00:00'' =
     Inr \<lparr>year = 2024, month = 1, day = 1, hour = 10, minute = 0, second = 0,
          microsecond = 0, utcoffset = Some 0\<rparr>"
  "fromisoformat ''2024-01-01T10:02:38+00:00'' =
     Inr \<lparr>year = 2024, month = 1, day = 1, hour = 10, minute = 2, second = 38,
          microsecond = 0, utcoffset = Some 0\<rparr>"
  "fromisoformat ''yesterday'' = Inl ValueError"
  by (simp_all add: fromisoformat_def parse_fields_def parse_offset_def number_sample
        days_in_month_def)

lemma datetime_sub_sample:
  "datetime_sub
     \<lparr>year = 2024, month = 1, day = 1, hour = 10, minute = 2, second = 38,
          microsecond = 0, utcoffset = Some 0\<rparr>
     \<lparr>year = 2024, month = 1, day = 1, hour = 10, minute = 0, second = 0,
          microsecond = 0, utcoffset = Some 0\<rparr> = Inr 158000000"
  "datetime_sub
     \<lparr>year = 2024, month = 1, day = 1, hour = 10, minute = 0, second = 0,
          microsecond = 0, utcoffset = Some 0\<rparr>
     \<lparr>year = 2024, month = 1, day = 1, hour = 10, minute = 2, second = 38,
          microsecond = 0, utcoffset = Some 0\<rparr> = Inr (- 158000000)"
  by (simp_all add: datetime_sub_def toordinal_def)

text \<open>
  C2, on the code. For the job of the specification's scenario 3, started at
  \<^verbatim>\<open>2024-01-01T10:00:00Z\<close> and completed at \<^verbatim>\<open>2024-01-01T10:02:38Z\<close>, the two timestamps parse
  and lie 158 seconds apart, which is 2 minutes and 38 seconds; the calculator does not
  return \<^verbatim>\<open>02:38\<close>, it raises \<^verbatim>\<open>AttributeError\<close>.
\<close>

theorem calculate_duration_scenario_3:
  "job_started_at job_timed = Some (Str ''2024-01-01T10:00:00Z'')
   \<and> job_completed_at job_timed = Some (Str ''2024-01-01T10:02:38Z'')
   \<and> total_seconds_int 158000000 div 60 = 2 \<and> total_seconds_int 158000000 mod 60 = 38
   \<and> calculate_duration fromisoformat job_timed \<noteq> Inr ''02:38''
   \<and> calculate_duration fromisoformat job_timed = Inl AttributeError"
proof -
  have t: "job_started_at job_timed = Some (Str ''2024-01-01T10:00:00Z'')"
    "job_completed_at job_timed = Some (Str ''2024-01-01T10:02:38Z'')"
    by (simp_all add: job_timed_def)
  have p: "fromisoformat (replace_Z ''2024-01-01T10:00:00Z'') =
       Inr \<lparr>year = 2024, month = 1, day = 1, hour = 10, minute = 0, second = 0,
          microsecond = 0, utcoffset = Some 0\<rparr>"
    "fromisoformat (replace_Z ''2024-01-01T10:02:38Z'') =
       Inr \<lparr>year = 2024, month = 1, day = 1, hour = 10, minute = 2, second = 38,
          microsecond = 0, utcoffset = Some 0\<rparr>"
    by (simp_all only: replace_Z_sample fromisoformat_sample)
  have "calculate_duration fromisoformat job_timed = Inl AttributeError"
    by (rule calculate_duration_parsed [OF t(1) _ t(2) _ p(1) p(2) datetime_sub_sample(1)])
       simp_all
  with t show ?thesis
    by (simp add: total_seconds_int_def)
qed




section \<open>Fetch failures during collection\<close>

text \<open>
  When the look-back date does not exist, \<^verbatim>\<open>get_workflow_runs\<close> raises before it
  requests anything.
\<close>

lemma get_workflow_runs_overflow:
  "since_date self name days_back = Inl e \<Longrightarrow> get_workflow_runs self name branch days_back = Inl e"
  by (simp add: get_workflow_runs_def)

lemma get_workflow_runs_failed:
  "since_date self name days_back = Inr since \<Longrightarrow>
   request_runs self name branch days_back = Inl GitHubAPIError \<Longrightarrow>
     get_workflow_runs self name branch days_back = Inr []"
  by (simp add: get_workflow_runs_def)

lemma get_jobs_for_run_failed:
  "request_jobs self name rid = Inl GitHubAPIError \<Longrightarrow> get_jobs_for_run self name rid = Inr []"
  by (simp add: get_jobs_for_run_def)

text \<open>A repository whose runs cannot be fetched is passed over, wherever it stands.\<close>

lemma repos_loop_skip:
  assumes "since_date self (repo_name rp) days_back = Inr since"
    and "request_runs self (repo_name rp) (repo_default_branch rp) days_back = Inl GitHubAPIError"
  shows "repos_loop self target_label days_back status_filter (earlier @ rp # later) results
           = repos_loop self target_label days_back status_filter (earlier @ later) results"
proof (induction earlier arbitrary: results)
  case Nil
  from assms show ?case
    by (simp add: get_workflow_runs_failed)
next
  case (Cons x earlier)
  then show ?case
    by (simp split: sum.splits)
qed

text \<open>So is a run whose jobs cannot be fetched.\<close>

lemma runs_loop_skip:
  assumes "request_jobs self (repo_name rp) (run_id rn) = Inl GitHubAPIError"
  shows "runs_loop self target_label status_filter rp (earlier @ rn # later) results
           = runs_loop self target_label status_filter rp (earlier @ later) results"
proof (induction earlier arbitrary: results)
  case Nil
  from assms show ?case
    by (simp add: get_jobs_for_run_failed)
next
  case (Cons x earlier)
  then show ?case
    by (simp split: sum.splits)
qed

text \<open>
  The listing of the repositories fails with the error of the first page that fails, when
  the pages before it are not empty and the page is within the limit of 100.
\<close>

lemma get_repositories_from_error:
  assumes "page \<le> k" "k \<le> 100"
    and "\<forall>p. page \<le> p \<and> p < k \<longrightarrow> (\<exists>d. request_repos self p = Inr d \<and> d \<noteq> [])"
    and "request_repos self k = Inl e"
  shows "get_repositories_from self page repos = Inl e"
  using assms
proof (induction "k - page" arbitrary: page repos)
  case 0
  then have "page = k" by simp
  with "0.prems"(4) show ?case
    by (simp add: get_repositories_from.simps)
next
  case (Suc n)
  then have lt: "page < k" by simp
  with Suc.prems(3) obtain d where d: "request_repos self page = Inr d" "d \<noteq> []"
    by auto
  from lt Suc.prems(2) have small: "\<not> 100 < page + 1" by simp
  have "get_repositories_from self (page + 1) (repos @ d) = Inl e"
  proof (rule Suc.hyps(1))
    show "n = k - (page + 1)" using Suc.hyps(2) by simp
    show "page + 1 \<le> k" using lt by simp
    show "k \<le> 100" by (rule Suc.prems(2))
    show "\<forall>p. page + 1 \<le> p \<and> p < k \<longrightarrow> (\<exists>d. request_repos self p = Inr d \<and> d \<noteq> [])"
      using Suc.prems(3) by simp
    show "request_repos self k = Inl e" by (rule Suc.prems(4))
  qed
  with d small show ?case
    by (simp add: get_repositories_from.simps [of self page])
qed

text \<open>
  C7. When the runs of a repository, or the jobs of a run, cannot be fetched, the getter
  returns the empty list and the collection goes on as if that repository, or that run,
  were not in the list it loops over: it adds no record and the others are processed as
  before. The runs of a repository are requested, and so can fail to be fetched, when the
  look-back date exists. When a page of the repository listing cannot be fetched, the
  error is the result of the listing and of the whole analysis.
\<close>

theorem fetch_failures:
  "(since_date self (repo_name rp) days_back = Inr since
      \<and> request_runs self (repo_name rp) (repo_default_branch rp) days_back = Inl GitHubAPIError \<longrightarrow>
      get_workflow_runs self (repo_name rp) (repo_default_branch rp) days_back = Inr []
      \<and> repos_loop self target_label days_back status_filter (earlier @ rp # later) results
          = repos_loop self target_label days_back status_filter (earlier @ later) results)
   \<and> (request_jobs self (repo_name rp) (run_id rn) = Inl GitHubAPIError \<longrightarrow>
      get_jobs_for_run self (repo_name rp) (run_id rn) = Inr []
      \<and> runs_loop self target_label status_filter rp (before @ rn # after) results
          = runs_loop self target_label status_filter rp (before @ after) results)
   \<and> (1 \<le> k \<and> k \<le> 100
        \<and> (\<forall>p. 1 \<le> p \<and> p < k \<longrightarrow> (\<exists>d. request_repos self p = Inr d \<and> d \<noteq> []))
        \<and> request_repos self k = Inl e \<longrightarrow>
      get_repositories self = Inl e
      \<and> analyze_runner_usage self target_label days_back group_by status_filter repo_filter = Inl e)"
proof (intro conjI impI)
  assume "since_date self (repo_name rp) days_back = Inr since
      \<and> request_runs self (repo_name rp) (repo_default_branch rp) days_back = Inl GitHubAPIError"
  then have a: "since_date self (repo_name rp) days_back = Inr since"
    "request_runs self (repo_name rp) (repo_default_branch rp) days_back = Inl GitHubAPIError"
    by simp_all
  show "get_workflow_runs self (repo_name rp) (repo_default_branch rp) days_back = Inr []"
    by (rule get_workflow_runs_failed [OF a])
  show "repos_loop self target_label days_back status_filter (earlier @ rp # later) results
          = repos_loop self target_label days_back status_filter (earlier @ later) results"
    by (rule repos_loop_skip [OF a])
next
  assume "request_jobs self (repo_name rp) (run_id rn) = Inl GitHubAPIError"
  then show "get_jobs_for_run self (repo_name rp) (run_id rn) = Inr []"
    and "runs_loop self target_label status_filter rp (before @ rn # after) results
          = runs_loop self target_label status_filter rp (before @ after) results"
    by (rule get_jobs_for_run_failed, rule runs_loop_skip)
next
  assume a: "1 \<le> k \<and> k \<le> 100
        \<and> (\<forall>p. 1 \<le> p \<and> p < k \<longrightarrow> (\<exists>d. request_repos self p = Inr d \<and> d \<noteq> []))
        \<and> request_repos self k = Inl e"
  then show g: "get_repositories self = Inl e"
    unfolding get_repositories_def
    by (intro get_repositories_from_error [of 1 k]) simp_all
  then show "analyze_runner_usage self target_label days_back group_by status_filter repo_filter = Inl e"
    by (simp add: analyze_runner_usage_def collect_results_def)
qed

theorem fetch_failures_witness:
  "since_date sample_analyzer (repo_name repo_api) 30 = Inr 738856
   \<and> request_runs sample_analyzer (repo_name repo_api) (repo_default_branch repo_api) 30 = Inl GitHubAPIError
   \<and> repos_loop sample_analyzer None 30 None ([] @ repo_api # [repo_web]) []
       = repos_loop sample_analyzer None 30 None ([] @ [repo_web]) []
   \<and> repos_loop sample_analyzer None 30 None [repo_api, repo_web] [] = Inr sample_records
   \<and> request_jobs sample_analyzer (repo_name repo_web) (run_id run_nightly) = Inl GitHubAPIError
   \<and> runs_loop sample_analyzer None None repo_web ([run_ci] @ run_nightly # []) []
       = runs_loop sample_analyzer None None repo_web ([run_ci] @ []) []
   \<and> runs_loop sample_analyzer None None repo_web [run_ci, run_nightly] [] = Inr sample_records
   \<and> request_repos offline_analyzer 1 = Inr [repo_api, repo_web]
   \<and> request_repos offline_analyzer 2 = Inl GitHubAPIError
   \<and> analyze_runner_usage offline_analyzer None 30 ''none'' None None = Inl GitHubAPIError"
proof -
  have r: "request_runs sample_analyzer (repo_name repo_api) (repo_default_branch repo_api) 30
             = Inl GitHubAPIError"
    by (simp add: sample_analyzer_def repo_api_def)
  have d: "since_date sample_analyzer (repo_name repo_api) 30 = Inr 738856"
    by (simp add: since_date_def sample_analyzer_def)
  have j: "request_jobs sample_analyzer (repo_name repo_web) (run_id run_nightly) = Inl GitHubAPIError"
    by (simp add: sample_analyzer_def run_nightly_def)
  have p: "request_repos offline_analyzer 1 = Inr [repo_api, repo_web]"
    "request_repos offline_analyzer 2 = Inl GitHubAPIError"
    by (simp_all add: offline_analyzer_def)
  have pages: "(1::nat) \<le> 2 \<and> (2::nat) \<le> 100
        \<and> (\<forall>p. 1 \<le> p \<and> p < 2 \<longrightarrow> (\<exists>d. request_repos offline_analyzer p = Inr d \<and> d \<noteq> []))
        \<and> request_repos offline_analyzer 2 = Inl GitHubAPIError"
  proof (intro conjI allI impI)
    fix p :: nat
    assume "1 \<le> p \<and> p < 2"
    then have "p = 1" by simp
    with p(1) show "\<exists>d. request_repos offline_analyzer p = Inr d \<and> d \<noteq> []" by simp
  qed (simp_all add: p)
  have all: "repos_loop sample_analyzer None 30 None [repo_api, repo_web] [] = Inr sample_records"
    "runs_loop sample_analyzer None None repo_web [run_ci, run_nightly] [] = Inr sample_records"
    by code_simp+
  note f = fetch_failures [of sample_analyzer repo_api 30 738856 None None "[]" "[repo_web]" "[]"
      run_nightly "[]" "[]" 1 GitHubAPIError "''none''" None]
    fetch_failures [of sample_analyzer repo_web 30 738856 None None "[]" "[]" "[]"
      run_nightly "[run_ci]" "[]" 1 GitHubAPIError "''none''" None]
    fetch_failures [of offline_analyzer repo_web 30 738856 None None "[]" "[]" "[]"
      run_nightly "[]" "[]" 2 GitHubAPIError "''none''" None]
  from f(1) d r have a: "repos_loop sample_analyzer None 30 None ([] @ repo_api # [repo_web]) []
       = repos_loop sample_analyzer None 30 None ([] @ [repo_web]) []"
    by blast
  from f(2) j have b: "runs_loop sample_analyzer None None repo_web ([run_ci] @ run_nightly # []) []
       = runs_loop sample_analyzer None None repo_web ([run_ci] @ []) []"
    by blast
  from f(3) pages have c: "analyze_runner_usage offline_analyzer None 30 ''none'' None None
       = Inl GitHubAPIError"
    by blast
  from d r a all(1) j b all(2) p c show ?thesis
    by (intro conjI)
qed

end
